theory Spec2Isabelle
  imports Main
begin

section \<open>Values of the host language\<close>

text \<open>
  The library is a JavaScript file, \<^verbatim>\<open>src/simpledom.js\<close>. Its functions throw where a
  property of \<^verbatim>\<open>undefined\<close> is read, where an undeclared variable is read and where a
  pattern is not a regular expression; these are the first three errors. The host throws
  the fourth where it is asked to create or set an attribute whose name it rejects. The
  fifth, \<open>Unsupported\<close>, is not an outcome of the code: it marks the inputs on which
  this development does not say what the host does (the conversion of strings and objects
  to numbers, and the parts of the pattern language that are left out below).
\<close>

datatype error = TypeError | ReferenceError | SyntaxError | InvalidCharacterError | Unsupported

text \<open>
  A function value is a callback of the page (an opaque handle: calling it is recorded in
  the host's call log), the handler that \<^verbatim>\<open>ready\<close> builds around a callback, or one of the
  methods of the wrapper's prototype.
\<close>

datatype func = Opaque nat | ReadyHandler func | Method string

datatype jsval =
    VUndefined
  | VNull
  | VBool bool
  | VNum int
  | VStr string
  | VElem nat
  | VFun func
  | VArray "jsval list"
  | VColl "nat list"

text \<open>The \<^verbatim>\<open>typeof\<close> operator. Elements, arrays, node lists and \<^verbatim>\<open>null\<close> are objects.\<close>

fun typeof :: "jsval \<Rightarrow> string" where
  "typeof VUndefined = ''undefined''"
| "typeof VNull = ''object''"
| "typeof (VBool b) = ''boolean''"
| "typeof (VNum i) = ''number''"
| "typeof (VStr s) = ''string''"
| "typeof (VElem e) = ''object''"
| "typeof (VFun f) = ''function''"
| "typeof (VArray vs) = ''object''"
| "typeof (VColl es) = ''object''"

section \<open>The host document\<close>

text \<open>
  An element carries its attributes; \<^verbatim>\<open>className\<close> reflects the attribute \<^verbatim>\<open>class\<close>.
  \<open>native_hasAttribute\<close> says whether \<^verbatim>\<open>'hasAttribute' in element\<close> holds, and \<open>props\<close>
  gives the value of \<^verbatim>\<open>element[name]\<close> for the hosts where it does not.
\<close>

record element =
  attrs :: "string \<rightharpoonup> string"
  native_hasAttribute :: bool
  props :: "string \<Rightarrow> jsval"

definition className :: "element \<Rightarrow> string" where
  "className el = (case attrs el ''class'' of None \<Rightarrow> [] | Some s \<Rightarrow> s)"

definition set_className :: "string \<Rightarrow> element \<Rightarrow> element" where
  "set_className s el = el\<lparr>attrs := (attrs el)(''class'' \<mapsto> s)\<rparr>"

text \<open>
  The document: its elements by handle, the three lookups of the host (the first is absent
  on a host without \<^verbatim>\<open>querySelectorAll\<close>, and throws on a selector the host rejects),
  the loading state, the single \<^verbatim>\<open>onreadystatechange\<close> slot, the global variables of
  the page, and the log of the calls made to callbacks: callback, receiver, arguments.
  \<open>canonical_name\<close> is the form in which the host stores and looks up an attribute name
  (lower case in an HTML document), and \<open>valid_name\<close> tells the names it accepts for a
  new attribute.
\<close>

record host =
  elements :: "nat \<Rightarrow> element"
  querySelectorAll :: "(string \<Rightarrow> error + nat list) option"
  getElementById :: "string \<Rightarrow> nat option"
  getElementsByTagName :: "string \<Rightarrow> nat list"
  canonical_name :: "string \<Rightarrow> string"
  valid_name :: "string \<Rightarrow> bool"
  readyState :: string
  onreadystatechange :: jsval
  globals :: "string \<rightharpoonup> jsval"
  calls :: "(nat \<times> jsval \<times> jsval list) list"

section \<open>The wrapper object\<close>

text \<open>
  A wrapper is an object: a finite map from property keys to values. \<^verbatim>\<open>this[n]\<close> reads
  the key \<open>Index n\<close>, \<^verbatim>\<open>this.length\<close> the key \<open>Named ''length''\<close>. A key the object does not
  own is looked up in the prototype of lines 65 to 264, which holds \<^verbatim>\<open>_raw_selector\<close> and
  the thirteen methods, and neither \<^verbatim>\<open>length\<close> nor any index.
\<close>

datatype pkey = Named string | Index nat

type_synonym obj = "pkey \<rightharpoonup> jsval"

definition method_names :: "string list" where
  "method_names = [''get'', ''each'', ''ready'', ''getClasses'', ''addClass'', ''removeClass'',
     ''hasClass'', ''bind'', ''unbind'', ''css'', ''hide'', ''show'', ''attr'']"

fun prototype :: "pkey \<Rightarrow> jsval option" where
  "prototype (Named s) =
     (if s = ''_raw_selector'' then Some (VBool False)
      else if s \<in> set method_names then Some (VFun (Method s))
      else None)"
| "prototype (Index n) = None"

definition get_prop :: "obj \<Rightarrow> pkey \<Rightarrow> jsval" where
  "get_prop this k =
     (case this k of
        Some v \<Rightarrow> v
      | None \<Rightarrow> (case prototype k of Some v \<Rightarrow> v | None \<Rightarrow> VUndefined))"

text \<open>What a method returns: a value, or the wrapper it was called on.\<close>

datatype result = RVal jsval | RObj obj

section \<open>Calling functions; \<^verbatim>\<open>ready\<close>\<close>

text \<open>
  Lines 101 to 105: the handler built by \<^verbatim>\<open>ready\<close> calls the callback, with no receiver and
  no argument, when the loading state is \<^verbatim>\<open>"complete"\<close> or \<^verbatim>\<open>"loaded"\<close>, and does nothing
  otherwise. A call of a callback of the page appends to the call log.
\<close>

fun call_function :: "func \<Rightarrow> jsval \<Rightarrow> jsval list \<Rightarrow> host \<Rightarrow> error + host" where
  "call_function (Opaque k) thisArg args h = Inr (h\<lparr>calls := calls h @ [(k, thisArg, args)]\<rparr>)"
| "call_function (ReadyHandler closure) thisArg args h =
     (if readyState h = ''complete'' \<or> readyState h = ''loaded''
      then call_function closure VUndefined [] h
      else Inr h)"
| "call_function (Method m) thisArg args h = Inl Unsupported"

text \<open>Lines 99 to 106. The method returns nothing; the model returns the document.\<close>

fun ready :: "jsval \<Rightarrow> host \<Rightarrow> host" where
  "ready (VFun closure) h = h\<lparr>onreadystatechange := VFun (ReadyHandler closure)\<rparr>"
| "ready v h = h"

section \<open>The constructor\<close>

text \<open>
  \<^verbatim>\<open>selector.indexOf("#") === 0\<close> and \<^verbatim>\<open>selector.replace('#','')\<close>: the second removes the
  first \<^verbatim>\<open>#\<close> of the string.
\<close>

definition starts_with_hash :: "string \<Rightarrow> bool" where
  "starts_with_hash s = (case s of [] \<Rightarrow> False | c # cs \<Rightarrow> c = CHR ''#'')"

fun remove_first_hash :: "string \<Rightarrow> string" where
  "remove_first_hash [] = []"
| "remove_first_hash (c # cs) = (if c = CHR ''#'' then cs else c # remove_first_hash cs)"

definition element_or_null :: "nat option \<Rightarrow> jsval" where
  "element_or_null r = (case r of None \<Rightarrow> VNull | Some e \<Rightarrow> VElem e)"

text \<open>
  Lines 41 to 61 of the constructor: the value of its local variable \<^verbatim>\<open>_matches\<close>, and the
  document, which the call of \<^verbatim>\<open>ready\<close> on line 46 changes.
\<close>

definition resolve_matches :: "jsval \<Rightarrow> host \<Rightarrow> error + (jsval \<times> host)" where
  "resolve_matches selector h =
     (if typeof selector = ''object'' then Inr (VArray [selector], h)
      else if typeof selector = ''function'' then Inr (VArray [], ready selector h)
      else (case selector of
          VStr s \<Rightarrow>
            (case querySelectorAll h of
               Some query \<Rightarrow>
                 (case query s of Inl e \<Rightarrow> Inl e | Inr es \<Rightarrow> Inr (VColl es, h))
             | None \<Rightarrow>
                 (if starts_with_hash s
                  then Inr (VArray [element_or_null (getElementById h (remove_first_hash s))], h)
                  else Inr (VArray [VColl (getElementsByTagName h s)], h)))
        | _ \<Rightarrow> Inr (VArray [], h)))"

text \<open>
  Lines 37 to 63. Line 39 stores the selector in the new object; \<^verbatim>\<open>_matches\<close> is a local
  variable that no line copies into \<^verbatim>\<open>this\<close>, and line 62 returns \<^verbatim>\<open>this\<close>.
\<close>

definition simpleDOMEngine :: "jsval \<Rightarrow> host \<Rightarrow> error + (obj \<times> host)" where
  "simpleDOMEngine selector h =
     (let this = Map.empty(Named ''_raw_selector'' \<mapsto> selector)
      in case resolve_matches selector h of
           Inl e \<Rightarrow> Inl e
         | Inr (local_matches, h') \<Rightarrow> Inr (this, h'))"

text \<open>Lines 16 to 18: the factory \<^verbatim>\<open>simpleDOM\<close>, exported as \<^verbatim>\<open>$\<close>.\<close>

definition simpleDOM :: "jsval \<Rightarrow> host \<Rightarrow> error + (obj \<times> host)" where
  "simpleDOM selector h = simpleDOMEngine selector h"

section \<open>The loop header\<close>

text \<open>
  Every loop of the library has the header
  \<^verbatim>\<open>for( var n = 0, l = this.length; n < l; n++ )\<close>. The test \<^verbatim>\<open>n < l\<close> converts \<^verbatim>\<open>l\<close> to
  a number: \<^verbatim>\<open>undefined\<close> gives NaN, and the test fails; \<^verbatim>\<open>null\<close> gives 0, \<^verbatim>\<open>true\<close> gives 1.
  Numbers are integers here. The conversion of strings and objects is left out.
\<close>

fun js_less :: "nat \<Rightarrow> jsval \<Rightarrow> error + bool" where
  "js_less n VUndefined = Inr False"
| "js_less n VNull = Inr False"
| "js_less n (VBool b) = Inr (b \<and> n = 0)"
| "js_less n (VNum m) = Inr (int n < m)"
| "js_less n v = Inl Unsupported"

fun loop_bound :: "jsval \<Rightarrow> nat" where
  "loop_bound (VNum m) = nat m"
| "loop_bound (VBool b) = (if b then 1 else 0)"
| "loop_bound v = 0"

function for_loop :: "(nat \<Rightarrow> 's \<Rightarrow> error + 's) \<Rightarrow> nat \<Rightarrow> jsval \<Rightarrow> 's \<Rightarrow> error + 's" where
  "for_loop body n l s =
     (case js_less n l of
        Inl e \<Rightarrow> Inl e
      | Inr continue \<Rightarrow>
          if continue
          then (case body n s of Inl e \<Rightarrow> Inl e | Inr s' \<Rightarrow> for_loop body (Suc n) l s')
          else Inr s)"
  by pat_completeness auto
termination
proof (relation "measure (\<lambda>(body, n, l, s). loop_bound l - n)")
  show "wf (measure (\<lambda>(body :: nat \<Rightarrow> 's \<Rightarrow> error + 's, n, l, s :: 's). loop_bound l - n))"
    by simp
next
  fix body :: "nat \<Rightarrow> 's \<Rightarrow> error + 's" and n l and s s' :: 's and continue
  assume "js_less n l = Inr continue" and continue
  then show "((body, Suc n, l, s'), (body, n, l, s))
      \<in> measure (\<lambda>(body, n, l, s). loop_bound l - n)"
    by (cases l) (auto split: if_splits)
qed

text \<open>\<^verbatim>\<open>this.length >= 1\<close>, with the same conversion.\<close>

fun js_at_least_one :: "jsval \<Rightarrow> error + bool" where
  "js_at_least_one VUndefined = Inr False"
| "js_at_least_one VNull = Inr False"
| "js_at_least_one (VBool b) = Inr b"
| "js_at_least_one (VNum m) = Inr (1 \<le> m)"
| "js_at_least_one v = Inl Unsupported"

section \<open>\<^verbatim>\<open>each\<close>\<close>

text \<open>
  Lines 86 to 92. \<^verbatim>\<open>closure.call(this[n], n)\<close> calls the callback with \<^verbatim>\<open>this[n]\<close> as its
  receiver and \<^verbatim>\<open>n\<close> as its only argument.
\<close>

fun each :: "obj \<Rightarrow> jsval \<Rightarrow> host \<Rightarrow> error + (result \<times> host)" where
  "each this (VFun closure) h =
     (case for_loop (\<lambda>n. call_function closure (get_prop this (Index n)) [VNum (int n)])
             0 (get_prop this (Named ''length'')) h of
        Inl e \<Rightarrow> Inl e
      | Inr h' \<Rightarrow> Inr (RObj this, h'))"
| "each this v h = Inr (RVal (VBool False), h)"

section \<open>Strings\<close>

text \<open>\<^verbatim>\<open>s.split(' ')\<close> and \<^verbatim>\<open>a.join(' ')\<close>.\<close>

fun split_space :: "string \<Rightarrow> string list" where
  "split_space [] = [[]]"
| "split_space (c # cs) =
     (if c = CHR '' '' then [] # split_space cs
      else (case split_space cs of [] \<Rightarrow> [[c]] | w # ws \<Rightarrow> (c # w) # ws))"

fun join_space :: "string list \<Rightarrow> string" where
  "join_space [] = []"
| "join_space [w] = w"
| "join_space (w # v # ws) = w @ CHR '' '' # join_space (v # ws)"

text \<open>
  Strings are lists of 8-bit characters, so the code units of a string are below 256. Of
  these, \<^verbatim>\<open>\s\<close> matches tab, line feed, vertical tab, form feed, carriage return, space
  and no-break space; the dot matches all but the line terminators.
\<close>

definition is_space :: "char \<Rightarrow> bool" where
  "is_space c =
     (c \<in> set [CHR 0x09, CHR 0x0A, CHR 0x0B, CHR 0x0C, CHR 0x0D, CHR 0x20, CHR 0xA0])"

definition is_line_terminator :: "char \<Rightarrow> bool" where
  "is_line_terminator c = (c = CHR 0x0A \<or> c = CHR 0x0D)"

section \<open>Regular expressions of the host\<close>

text \<open>
  \<^verbatim>\<open>new RegExp(pattern)\<close> reads a pattern and throws a SyntaxError on a string that is not
  one. The part of the pattern language modelled here: characters, the dot, \<^verbatim>\<open>\s\<close> and
  \<^verbatim>\<open>\S\<close>, an escaped syntax character, \<^verbatim>\<open>^\<close> and \<^verbatim>\<open>$\<close> (without the multiline flag),
  alternatives, the groups \<^verbatim>\<open>(?:\<close>, \<^verbatim>\<open>(?!\<close> and \<^verbatim>\<open>(?=\<close>, and the greedy quantifiers
  \<^verbatim>\<open>*\<close>, \<^verbatim>\<open>+\<close> and \<^verbatim>\<open>?\<close>. On anything else (capturing groups, character classes, braces,
  the other escapes, lazy quantifiers, a quantified lookahead) the result is
  \<open>Unsupported\<close>.
\<close>

definition syntax_char :: "char \<Rightarrow> bool" where
  "syntax_char c = (c \<in> set (CHR 0x5C # ''^$.*+?()[]{}|''))"

datatype gkind = NonCapturing | NegLookahead | PosLookahead

datatype token = TChar char | TDot | TClass bool | TBol | TEol | TBar
  | TStar | TPlus | TQuest | TOpen gkind | TClose

definition cons_token :: "token \<Rightarrow> error + token list \<Rightarrow> error + token list" where
  "cons_token t r = (case r of Inl e \<Rightarrow> Inl e | Inr ts \<Rightarrow> Inr (t # ts))"

fun tokenize :: "string \<Rightarrow> error + token list" where
  "tokenize [] = Inr []"
| "tokenize (c # cs) =
     (if c = CHR 0x5C then
        (case cs of
           [] \<Rightarrow> Inl SyntaxError
         | d # ds \<Rightarrow>
             if d = CHR ''s'' then cons_token (TClass True) (tokenize ds)
             else if d = CHR ''S'' then cons_token (TClass False) (tokenize ds)
             else if syntax_char d \<or> d = CHR ''/'' then cons_token (TChar d) (tokenize ds)
             else Inl Unsupported)
      else if c = CHR ''('' then
        (case cs of
           q # k # ds \<Rightarrow>
             if q = CHR ''?'' \<and> k = CHR '':'' then cons_token (TOpen NonCapturing) (tokenize ds)
             else if q = CHR ''?'' \<and> k = CHR ''!'' then cons_token (TOpen NegLookahead) (tokenize ds)
             else if q = CHR ''?'' \<and> k = CHR ''='' then cons_token (TOpen PosLookahead) (tokenize ds)
             else Inl Unsupported
         | _ \<Rightarrow> Inl Unsupported)
      else if c = CHR '')'' then cons_token TClose (tokenize cs)
      else if c = CHR ''|'' then cons_token TBar (tokenize cs)
      else if c = CHR ''*'' then cons_token TStar (tokenize cs)
      else if c = CHR ''+'' then cons_token TPlus (tokenize cs)
      else if c = CHR ''?'' then cons_token TQuest (tokenize cs)
      else if c = CHR ''^'' then cons_token TBol (tokenize cs)
      else if c = CHR ''$'' then cons_token TEol (tokenize cs)
      else if c = CHR ''.'' then cons_token TDot (tokenize cs)
      else if syntax_char c then Inl Unsupported
      else cons_token (TChar c) (tokenize cs))"

text \<open>
  The parsed pattern. \<open>Cls True\<close> is \<^verbatim>\<open>\s\<close> and \<open>Cls False\<close> is \<^verbatim>\<open>\S\<close>; \<^verbatim>\<open>r+\<close> is read as
  \<open>Seq r (Star r)\<close>.
\<close>

datatype regex = Chr char | Dot | Cls bool | Bol | Eol | Eps
  | Seq regex regex | Alt regex regex | Star regex | Opt regex | NLook regex | Look regex

text \<open>
  What a quantifier may follow: an atom. After \<^verbatim>\<open>^\<close> or \<^verbatim>\<open>$\<close>, after another quantifier
  (but for the \<^verbatim>\<open>?\<close> that makes it lazy) and at the start of an alternative there is
  nothing to repeat, which is a SyntaxError.
\<close>

datatype tkind = Atom | Assertion | Lookaround | Quantified

datatype quantifier = QStar | QPlus | QQuest

fun seq_of :: "(regex \<times> tkind) list \<Rightarrow> regex \<Rightarrow> regex" where
  "seq_of [] acc = acc"
| "seq_of ((r, k) # cur) acc = seq_of cur (Seq r acc)"

fun alt_of :: "regex list \<Rightarrow> regex \<Rightarrow> regex" where
  "alt_of [] acc = acc"
| "alt_of (r # alts) acc = alt_of alts (Alt r acc)"

definition finish :: "regex list \<Rightarrow> (regex \<times> tkind) list \<Rightarrow> regex" where
  "finish alts cur = alt_of alts (seq_of cur Eps)"

fun group_item :: "gkind \<Rightarrow> regex \<Rightarrow> regex \<times> tkind" where
  "group_item NonCapturing r = (r, Atom)"
| "group_item NegLookahead r = (NLook r, Lookaround)"
| "group_item PosLookahead r = (Look r, Lookaround)"

fun quantify :: "quantifier \<Rightarrow> (regex \<times> tkind) list \<Rightarrow> error + (regex \<times> tkind) list" where
  "quantify q [] = Inl SyntaxError"
| "quantify q ((r, Atom) # cur) =
     Inr ((case q of QStar \<Rightarrow> Star r | QPlus \<Rightarrow> Seq r (Star r) | QQuest \<Rightarrow> Opt r, Quantified)
          # cur)"
| "quantify q ((r, Assertion) # cur) = Inl SyntaxError"
| "quantify q ((r, Lookaround) # cur) = Inl Unsupported"
| "quantify q ((r, Quantified) # cur) =
     (case q of QQuest \<Rightarrow> Inl Unsupported | _ \<Rightarrow> Inl SyntaxError)"

text \<open>
  The parser reads the tokens from left to right. \<open>alts\<close> holds the finished alternatives
  of the group being read and \<open>cur\<close> the terms of its current alternative, both latest
  first; \<open>stack\<close> holds the same for the groups around it.
\<close>

fun parse :: "token list \<Rightarrow> regex list \<Rightarrow> (regex \<times> tkind) list
    \<Rightarrow> (gkind \<times> regex list \<times> (regex \<times> tkind) list) list \<Rightarrow> error + regex" where
  "parse [] alts cur stack = (if stack = [] then Inr (finish alts cur) else Inl SyntaxError)"
| "parse (TChar c # ts) alts cur stack = parse ts alts ((Chr c, Atom) # cur) stack"
| "parse (TDot # ts) alts cur stack = parse ts alts ((Dot, Atom) # cur) stack"
| "parse (TClass b # ts) alts cur stack = parse ts alts ((Cls b, Atom) # cur) stack"
| "parse (TBol # ts) alts cur stack = parse ts alts ((Bol, Assertion) # cur) stack"
| "parse (TEol # ts) alts cur stack = parse ts alts ((Eol, Assertion) # cur) stack"
| "parse (TBar # ts) alts cur stack = parse ts (seq_of cur Eps # alts) [] stack"
| "parse (TStar # ts) alts cur stack =
     (case quantify QStar cur of Inl e \<Rightarrow> Inl e | Inr cur' \<Rightarrow> parse ts alts cur' stack)"
| "parse (TPlus # ts) alts cur stack =
     (case quantify QPlus cur of Inl e \<Rightarrow> Inl e | Inr cur' \<Rightarrow> parse ts alts cur' stack)"
| "parse (TQuest # ts) alts cur stack =
     (case quantify QQuest cur of Inl e \<Rightarrow> Inl e | Inr cur' \<Rightarrow> parse ts alts cur' stack)"
| "parse (TOpen k # ts) alts cur stack = parse ts [] [] ((k, alts, cur) # stack)"
| "parse (TClose # ts) alts cur stack =
     (case stack of
        [] \<Rightarrow> Inl SyntaxError
      | (k, alts', cur') # stack' \<Rightarrow>
          parse ts alts' (group_item k (finish alts cur) # cur') stack')"

definition RegExp :: "string \<Rightarrow> error + regex" where
  "RegExp pattern = (case tokenize pattern of Inl e \<Rightarrow> Inl e | Inr ts \<Rightarrow> parse ts [] [] [])"

text \<open>
  Matching is backtracking. \<open>matches r s i\<close> lists the positions at which a match of
  \<open>r\<close> that starts at position \<open>i\<close> of \<open>s\<close> can end, in the order in which backtracking
  tries them: the first is the one the host reports. A repetition takes its body as often
  as it can first, and gives up an iteration that consumed nothing.
\<close>

function matches :: "regex \<Rightarrow> string \<Rightarrow> nat \<Rightarrow> nat list" where
  "matches (Chr c) s i = (if i < length s \<and> s ! i = c then [Suc i] else [])"
| "matches Dot s i = (if i < length s \<and> \<not> is_line_terminator (s ! i) then [Suc i] else [])"
| "matches (Cls b) s i = (if i < length s \<and> is_space (s ! i) = b then [Suc i] else [])"
| "matches Bol s i = (if i = 0 then [i] else [])"
| "matches Eol s i = (if i = length s then [i] else [])"
| "matches Eps s i = [i]"
| "matches (Seq r1 r2) s i = concat (map (\<lambda>j. matches r2 s j) (matches r1 s i))"
| "matches (Alt r1 r2) s i = matches r1 s i @ matches r2 s i"
| "matches (Star r) s i =
     concat (map (\<lambda>j. if i < j \<and> j \<le> length s then matches (Star r) s j else [])
                 (matches r s i)) @ [i]"
| "matches (Opt r) s i = filter (\<lambda>j. j \<noteq> i) (matches r s i) @ [i]"
| "matches (NLook r) s i = (if matches r s i = [] then [i] else [])"
| "matches (Look r) s i = (if matches r s i = [] then [] else [i])"
  by pat_completeness auto
termination
  by (relation "measures [\<lambda>(r, s, i). size r, \<lambda>(r, s, i). length s - i]") auto

text \<open>
  Without the global flag a search starts at position 0 and reports the leftmost match:
  its start and its end.
\<close>

function search :: "regex \<Rightarrow> string \<Rightarrow> nat \<Rightarrow> (nat \<times> nat) option" where
  "search r s k =
     (if length s < k then None
      else (case matches r s k of
              [] \<Rightarrow> search r s (Suc k)
            | e # es \<Rightarrow> Some (k, e)))"
  by pat_completeness auto
termination
  by (relation "measure (\<lambda>(r, s, k). Suc (length s) - k)") auto

text \<open>
  \<^verbatim>\<open>s.replace(regex, '')\<close> deletes the leftmost match, and only that one;
  \<^verbatim>\<open>s.match(regex)\<close> is \<^verbatim>\<open>null\<close> without a match and else an array that holds the matched
  text.
\<close>

definition string_replace :: "regex \<Rightarrow> string \<Rightarrow> string" where
  "string_replace r s =
     (case search r s 0 of None \<Rightarrow> s | Some (k, e) \<Rightarrow> take k s @ drop e s)"

definition string_match :: "regex \<Rightarrow> string \<Rightarrow> jsval" where
  "string_match r s =
     (case search r s 0 of
        None \<Rightarrow> VNull
      | Some (k, e) \<Rightarrow> VArray [VStr (take (e - k) (drop k s))])"

text \<open>\<^verbatim>\<open>a || b\<close> is \<^verbatim>\<open>a\<close> when \<^verbatim>\<open>a\<close> is truthy, and \<^verbatim>\<open>b\<close> otherwise.\<close>

fun truthy :: "jsval \<Rightarrow> bool" where
  "truthy VUndefined = False"
| "truthy VNull = False"
| "truthy (VBool b) = b"
| "truthy (VNum i) = (i \<noteq> 0)"
| "truthy (VStr s) = (s \<noteq> [])"
| "truthy v = True"

definition js_or :: "jsval \<Rightarrow> jsval \<Rightarrow> jsval" where
  "js_or a b = (if truthy a then a else b)"

section \<open>Class operations\<close>

text \<open>Lines 136 and 153: \<^verbatim>\<open>'(?:^|\\s)'+className+'(?!\\S)'\<close>.\<close>

definition class_pattern :: "string \<Rightarrow> string" where
  "class_pattern name =
     ''(?:^|'' @ [CHR 0x5C] @ ''s)'' @ name @ ''(?!'' @ [CHR 0x5C] @ ''S)''"

text \<open>Lines 113 to 115, for an element.\<close>

definition getClasses :: "element \<Rightarrow> string list" where
  "getClasses elem = (if className elem \<noteq> [] then split_space (className elem) else [])"

definition assign_className :: "nat \<Rightarrow> string \<Rightarrow> host \<Rightarrow> host" where
  "assign_className e s h = h\<lparr>elements := (elements h)(e := set_className s (elements h e))\<rparr>"

text \<open>
  The body of the loop of \<^verbatim>\<open>addClass\<close>, lines 124 to 126, by the value of \<^verbatim>\<open>this[n]\<close>.
  Reading \<^verbatim>\<open>className\<close> of \<^verbatim>\<open>undefined\<close> or \<^verbatim>\<open>null\<close> throws; on the other values that
  are not elements \<^verbatim>\<open>className\<close> is \<^verbatim>\<open>undefined\<close>, and the call of \<^verbatim>\<open>split\<close> on it
  throws. A node list may answer to any name, and is left out.
\<close>

fun addClass_body :: "string \<Rightarrow> jsval \<Rightarrow> host \<Rightarrow> error + host" where
  "addClass_body name (VElem e) h =
     (let classes = getClasses (elements h e)
      in Inr (assign_className e (join_space (classes @ [name])) h))"
| "addClass_body name (VColl es) h = Inl Unsupported"
| "addClass_body name v h = Inl TypeError"

text \<open>Lines 122 to 129.\<close>

definition addClass :: "obj \<Rightarrow> string \<Rightarrow> host \<Rightarrow> error + (result \<times> host)" where
  "addClass this name h =
     (case for_loop (\<lambda>n. addClass_body name (get_prop this (Index n)))
             0 (get_prop this (Named ''length'')) h of
        Inl e \<Rightarrow> Inl e
      | Inr h' \<Rightarrow> Inr (RObj this, h'))"

text \<open>The body of the loop of \<^verbatim>\<open>removeClass\<close>, line 138.\<close>

fun removeClass_body :: "regex \<Rightarrow> jsval \<Rightarrow> host \<Rightarrow> error + host" where
  "removeClass_body regex (VElem e) h =
     Inr (assign_className e (string_replace regex (className (elements h e))) h)"
| "removeClass_body regex (VColl es) h = Inl Unsupported"
| "removeClass_body regex v h = Inl TypeError"

text \<open>Lines 135 to 141. The pattern is built, and may be rejected, before the loop.\<close>

definition removeClass :: "obj \<Rightarrow> string \<Rightarrow> host \<Rightarrow> error + (result \<times> host)" where
  "removeClass this name h =
     (case RegExp (class_pattern name) of
        Inl e \<Rightarrow> Inl e
      | Inr regex \<Rightarrow>
          (case for_loop (\<lambda>n. removeClass_body regex (get_prop this (Index n)))
                  0 (get_prop this (Named ''length'')) h of
             Inl e \<Rightarrow> Inl e
           | Inr h' \<Rightarrow> Inr (RObj this, h')))"

text \<open>Line 155, by the value of \<^verbatim>\<open>this[0]\<close>.\<close>

fun hasClass_first :: "regex \<Rightarrow> jsval \<Rightarrow> host \<Rightarrow> error + jsval" where
  "hasClass_first regex (VElem e) h =
     Inr (js_or (string_match regex (className (elements h e))) (VBool False))"
| "hasClass_first regex (VColl es) h = Inl Unsupported"
| "hasClass_first regex v h = Inl TypeError"

text \<open>Lines 152 to 158.\<close>

definition hasClass :: "obj \<Rightarrow> string \<Rightarrow> host \<Rightarrow> error + jsval" where
  "hasClass this name h =
     (case RegExp (class_pattern name) of
        Inl e \<Rightarrow> Inl e
      | Inr regex \<Rightarrow>
          (case js_at_least_one (get_prop this (Named ''length'')) of
             Inl e \<Rightarrow> Inl e
           | Inr nonempty \<Rightarrow>
               if nonempty then hasClass_first regex (get_prop this (Index 0)) h
               else Inr (VBool False)))"

section \<open>Attributes\<close>

text \<open>The conversion of a value to a string, for the values whose string is fixed.\<close>

definition digit_char :: "nat \<Rightarrow> char" where
  "digit_char d = char_of (48 + d)"

function decimal :: "nat \<Rightarrow> string" where
  "decimal n = (if n < 10 then [digit_char n] else decimal (n div 10) @ [digit_char (n mod 10)])"
  by pat_completeness auto
termination
  by (relation "measure id") auto

fun to_string :: "jsval \<Rightarrow> error + string" where
  "to_string VUndefined = Inr ''undefined''"
| "to_string VNull = Inr ''null''"
| "to_string (VBool b) = Inr (if b then ''true'' else ''false'')"
| "to_string (VNum i) = Inr (if i < 0 then CHR ''-'' # decimal (nat (- i)) else decimal (nat i))"
| "to_string (VStr s) = Inr s"
| "to_string v = Inl Unsupported"

definition update_attrs :: "nat \<Rightarrow> ((string \<rightharpoonup> string) \<Rightarrow> (string \<rightharpoonup> string)) \<Rightarrow> host \<Rightarrow> host" where
  "update_attrs e f h =
     h\<lparr>elements := (elements h)(e := (elements h e)\<lparr>attrs := f (attrs (elements h e))\<rparr>)\<rparr>"

text \<open>
  Lines 244 to 249: \<^verbatim>\<open>hasAttribute\<close> where the element has that method, and else whether
  the property of that name is defined.
\<close>

definition hasAttr :: "host \<Rightarrow> element \<Rightarrow> string \<Rightarrow> bool" where
  "hasAttr h el name =
     (if native_hasAttribute el then attrs el (canonical_name h name) \<noteq> None
      else props el name \<noteq> VUndefined)"

text \<open>\<^verbatim>\<open>setAttribute\<close>, and \<^verbatim>\<open>createAttribute\<close> followed by \<^verbatim>\<open>setAttributeNode\<close>.\<close>

definition setAttribute :: "nat \<Rightarrow> string \<Rightarrow> string \<Rightarrow> host \<Rightarrow> error + host" where
  "setAttribute e name s h =
     (if valid_name h name
      then Inr (update_attrs e (\<lambda>m. m(canonical_name h name \<mapsto> s)) h)
      else Inl InvalidCharacterError)"

text \<open>
  Lines 241 to 261, by the value of \<^verbatim>\<open>this[0]\<close>. On line 258 the value given to the new
  attribute node is the variable \<^verbatim>\<open>val\<close>. No function around line 258 declares it, so it
  is read from the global variables of the page, and reading it throws a ReferenceError
  when the page has no such variable. The parameter is called \<^verbatim>\<open>value\<close>. The result is
  the value that the read form returns, or nothing for the write form.
\<close>

fun attr_first :: "jsval \<Rightarrow> string \<Rightarrow> jsval \<Rightarrow> host \<Rightarrow> error + (jsval option \<times> host)" where
  "attr_first (VElem e) name v h =
     (if v = VUndefined
      then Inr (Some (case attrs (elements h e) (canonical_name h name) of
                        None \<Rightarrow> VNull
                      | Some s \<Rightarrow> VStr s), h)
      else if hasAttr h (elements h e) name
      then (if v = VStr []
            then Inr (None, update_attrs e (\<lambda>m. m(canonical_name h name := None)) h)
            else (case to_string v of
                    Inl err \<Rightarrow> Inl err
                  | Inr s \<Rightarrow>
                      (case setAttribute e name s h of
                         Inl err \<Rightarrow> Inl err
                       | Inr h' \<Rightarrow> Inr (None, h'))))
      else if \<not> valid_name h name then Inl InvalidCharacterError
      else (case globals h ''val'' of
              None \<Rightarrow> Inl ReferenceError
            | Some val \<Rightarrow>
                (case to_string val of
                   Inl err \<Rightarrow> Inl err
                 | Inr s \<Rightarrow>
                     (case setAttribute e name s h of
                        Inl err \<Rightarrow> Inl err
                      | Inr h' \<Rightarrow> Inr (None, h')))))"
| "attr_first VUndefined name v h = Inl TypeError"
| "attr_first VNull name v h = Inl TypeError"
| "attr_first (VBool b) name v h = Inl TypeError"
| "attr_first (VNum i) name v h = Inl TypeError"
| "attr_first (VStr s) name v h = Inl TypeError"
| "attr_first (VFun f) name v h = (if v = VUndefined then Inl TypeError else Inl Unsupported)"
| "attr_first (VArray vs) name v h = (if v = VUndefined then Inl TypeError else Inl Unsupported)"
| "attr_first (VColl es) name v h = Inl Unsupported"

text \<open>
  Lines 239 to 263: the read form returns what \<^verbatim>\<open>getAttribute\<close> returns, the write form
  returns the wrapper. The read form is the call with \<^verbatim>\<open>value\<close> undefined.
\<close>

definition attr :: "obj \<Rightarrow> string \<Rightarrow> jsval \<Rightarrow> host \<Rightarrow> error + (result \<times> host)" where
  "attr this name v h =
     (case attr_first (get_prop this (Index 0)) name v h of
        Inl e \<Rightarrow> Inl e
      | Inr (Some r, h') \<Rightarrow> Inr (RVal r, h')
      | Inr (None, h') \<Rightarrow> Inr (RObj this, h'))"

section \<open>Example documents\<close>

definition blank_element :: element where
  "blank_element = \<lparr>attrs = Map.empty, native_hasAttribute = True, props = (\<lambda>n. VUndefined)\<rparr>"

definition with_class :: "string \<Rightarrow> element" where
  "with_class c = set_className c blank_element"

text \<open>A host with a native query facility, in which the selector \<^verbatim>\<open>div\<close> matches two elements.\<close>

definition modern_host :: host where
  "modern_host = \<lparr>
     elements = (\<lambda>e. blank_element),
     querySelectorAll = Some (\<lambda>s. if s = ''div'' then Inr [0, 1] else Inr []),
     getElementById = (\<lambda>s. None),
     getElementsByTagName = (\<lambda>s. if s = ''div'' then [0, 1] else []),
     canonical_name = (\<lambda>s. s),
     valid_name = (\<lambda>s. s \<noteq> []),
     readyState = ''loading'',
     onreadystatechange = VNull,
     globals = Map.empty,
     calls = []\<rparr>"

text \<open>The same document on a host without \<^verbatim>\<open>querySelectorAll\<close>.\<close>

definition legacy_host :: host where
  "legacy_host = modern_host\<lparr>querySelectorAll := None\<rparr>"

text \<open>The same document with the class attributes of element 0 and of the others set.\<close>

definition class_host :: "string \<Rightarrow> string \<Rightarrow> host" where
  "class_host c0 c1 =
     modern_host\<lparr>elements := (\<lambda>e. if e = 0 then with_class c0 else with_class c1)\<rparr>"

text \<open>
  Wrappers that hold one, two and three elements. The constructor builds none of them (see
  the section on construction); they are objects on which the methods of the prototype
  are called.
\<close>

definition one_item :: obj where
  "one_item = Map.empty(Named ''length'' \<mapsto> VNum 1, Index 0 \<mapsto> VElem 0)"

definition two_items :: obj where
  "two_items = Map.empty(Named ''length'' \<mapsto> VNum 2, Index 0 \<mapsto> VElem 0, Index 1 \<mapsto> VElem 1)"

definition three_items :: obj where
  "three_items = Map.empty(Named ''length'' \<mapsto> VNum 3, Index 0 \<mapsto> VElem 0,
     Index 1 \<mapsto> VElem 1, Index 2 \<mapsto> VElem 2)"

section \<open>Notions used in the statements\<close>

text \<open>
  Calling a function on a list of receivers and arguments, one call after the other; an
  error ends the sequence.
\<close>

fun call_in_order :: "func \<Rightarrow> (jsval \<times> jsval list) list \<Rightarrow> host \<Rightarrow> error + host" where
  "call_in_order f [] h = Inr h"
| "call_in_order f ((receiver, args) # cs) h =
     (case call_function f receiver args h of
        Inl e \<Rightarrow> Inl e
      | Inr h' \<Rightarrow> call_in_order f cs h')"

text \<open>
  The wrapper \<open>this\<close> holds the elements \<open>es\<close>: its length is their number and
  \<^verbatim>\<open>this[n]\<close> is the \<open>n\<close>-th of them.
\<close>

definition holds :: "obj \<Rightarrow> nat list \<Rightarrow> bool" where
  "holds this es =
     (get_prop this (Named ''length'') = VNum (int (length es))
      \<and> map (\<lambda>n. get_prop this (Index n)) [0..<length es] = map VElem es)"

text \<open>The document after the class attribute of each element of a list went through \<open>f\<close>.\<close>

definition update_classes :: "(string \<Rightarrow> string) \<Rightarrow> nat list \<Rightarrow> host \<Rightarrow> host" where
  "update_classes f es h =
     foldl (\<lambda>h e. assign_className e (f (className (elements h e))) h) h es"

definition add_token :: "string \<Rightarrow> string \<Rightarrow> string" where
  "add_token name c = (if c = [] then name else c @ '' '' @ name)"

text \<open>
  The specification's standalone token: \<open>name\<close> occurs in \<open>s\<close> at position \<open>i\<close>,
  preceded by the start of the string or by whitespace and followed by its end or by
  whitespace. \<open>first_token\<close> is the position of the leftmost such occurrence, and
  \<open>remove_first_token\<close> deletes it together with the whitespace character in front of
  it, if there is one. These three follow the words of the specification, not the code.
\<close>

definition token_at :: "string \<Rightarrow> string \<Rightarrow> nat \<Rightarrow> bool" where
  "token_at name s i =
     ((i = 0 \<or> is_space (s ! (i - 1)))
      \<and> i + length name \<le> length s
      \<and> take (length name) (drop i s) = name
      \<and> (i + length name = length s \<or> is_space (s ! (i + length name))))"

definition first_token :: "string \<Rightarrow> string \<Rightarrow> nat option" where
  "first_token name s = find (token_at name s) [0..<Suc (length s)]"

definition has_token :: "string \<Rightarrow> string \<Rightarrow> bool" where
  "has_token name s = (first_token name s \<noteq> None)"

definition remove_first_token :: "string \<Rightarrow> string \<Rightarrow> string" where
  "remove_first_token name s =
     (case first_token name s of
        None \<Rightarrow> s
      | Some i \<Rightarrow> take (i - 1) s @ drop (i + length name) s)"

text \<open>
  A class name in which no character is a syntax character of the pattern language, and
  the pattern that \<^verbatim>\<open>RegExp\<close> reads from \<open>class_pattern\<close> of such a name.
\<close>

definition literal_name :: "string \<Rightarrow> bool" where
  "literal_name name = list_all (\<lambda>c. \<not> syntax_char c) name"

definition literals :: "string \<Rightarrow> regex \<Rightarrow> regex" where
  "literals name r = foldr (\<lambda>c. Seq (Chr c)) name r"

definition class_regex :: "string \<Rightarrow> regex" where
  "class_regex name =
     Seq (Alt (Seq Bol Eps) (Seq (Cls True) Eps))
       (literals name (Seq (NLook (Seq (Cls False) Eps)) Eps))"

section \<open>Construction\<close>

declare for_loop.simps [simp del]
declare search.simps [simp del]

lemmas eval_regex = RegExp_def class_pattern_def cons_token_def syntax_char_def finish_def
  string_replace_def string_match_def search.simps is_space_def is_line_terminator_def js_or_def

lemmas eval_host = class_host_def modern_host_def with_class_def blank_element_def
  className_def set_className_def assign_className_def get_prop_def

lemma simpleDOMEngine_props:
  "simpleDOMEngine selector h = Inr (w, h') \<Longrightarrow> w = Map.empty(Named ''_raw_selector'' \<mapsto> selector)"
  by (auto simp: simpleDOMEngine_def Let_def split: sum.splits)

text \<open>
  Whatever the selector and the document, the wrapper that the constructor returns has
  no length and holds no element.
\<close>

lemma constructed_holds_nothing:
  assumes "simpleDOM selector h = Inr (w, h')"
  shows "get_prop w (Named ''length'') = VUndefined" and "get_prop w (Index n) = VUndefined"
  using simpleDOMEngine_props [of selector h w h'] assms
  by (simp_all add: simpleDOM_def get_prop_def method_names_def)

text \<open>
  Claim C1 asks that a wrapper built from a selector string that matches N elements has
  length N and holds them in document order. The code does not do that: the object the
  constructor returns owns the one property \<^verbatim>\<open>_raw_selector\<close>, so its \<^verbatim>\<open>length\<close> and
  every \<^verbatim>\<open>this[n]\<close> are \<^verbatim>\<open>undefined\<close>. On the host where \<^verbatim>\<open>div\<close> matches the two elements
  0 and 1, the constructor computes that list and returns a wrapper without them; for the
  element 0 as the selector it computes the list of that one element and returns a wrapper
  without it.
\<close>

theorem C1_length_undefined:
  "resolve_matches (VStr ''div'') modern_host = Inr (VColl [0, 1], modern_host)
   \<and> (\<exists>w. simpleDOM (VStr ''div'') modern_host = Inr (w, modern_host)
        \<and> get_prop w (Named ''length'') = VUndefined
        \<and> get_prop w (Named ''length'') \<noteq> VNum 2
        \<and> get_prop w (Index 0) = VUndefined
        \<and> get_prop w (Index 1) = VUndefined)
   \<and> resolve_matches (VElem 0) modern_host = Inr (VArray [VElem 0], modern_host)
   \<and> (\<exists>w. simpleDOM (VElem 0) modern_host = Inr (w, modern_host)
        \<and> get_prop w (Named ''length'') = VUndefined
        \<and> get_prop w (Index 0) = VUndefined)"
  by (simp add: simpleDOM_def simpleDOMEngine_def resolve_matches_def modern_host_def
      get_prop_def method_names_def)

section \<open>Iteration\<close>

lemma for_loop_calls:
  "n \<le> l \<Longrightarrow>
   for_loop (\<lambda>i. call_function f (get_prop this (Index i)) [VNum (int i)]) n (VNum (int l)) h
   = call_in_order f (map (\<lambda>i. (get_prop this (Index i), [VNum (int i)])) [n..<l]) h"
proof (induction "l - n" arbitrary: n h)
  case 0
  then show ?case by (simp add: for_loop.simps [of _ n])
next
  case (Suc d)
  then have "n < l" by simp
  moreover have "d = l - Suc n" and "Suc n \<le> l" using Suc.hyps(2) by auto
  ultimately show ?case
    using Suc.hyps(1) [of "Suc n"]
    by (simp add: for_loop.simps [of _ n] upt_conv_Cons split: sum.splits)
qed

lemma call_in_order_callback:
  "call_in_order (Opaque k) cs h
   = Inr (h\<lparr>calls := calls h @ map (\<lambda>(receiver, args). (k, receiver, args)) cs\<rparr>)"
  by (induction cs arbitrary: h) auto

text \<open>
  Claim C2. \<^verbatim>\<open>each(fn)\<close> returns \<^verbatim>\<open>false\<close> and calls nothing when \<^verbatim>\<open>fn\<close> is not a function.
  When \<^verbatim>\<open>fn\<close> is a function and the wrapper has the length \<open>l\<close>, it calls \<^verbatim>\<open>fn\<close> once for
  each \<open>n\<close> below \<open>l\<close>, in increasing order, with \<^verbatim>\<open>this[n]\<close> as the receiver and \<open>n\<close> as
  the only argument, and returns the wrapper; for a callback of the page these calls, and
  nothing else, are added to the call log. Over three elements these are three calls, with
  the indices 0, 1 and 2. On a wrapper without a length it calls nothing and returns the
  wrapper.
\<close>

theorem each_invokes_in_order:
  "(typeof fn \<noteq> ''function'' \<longrightarrow> each this fn h = Inr (RVal (VBool False), h))
   \<and> (get_prop this (Named ''length'') = VNum (int l) \<longrightarrow>
        each this (VFun f) h
        = (case call_in_order f (map (\<lambda>n. (get_prop this (Index n), [VNum (int n)])) [0..<l]) h of
             Inl e \<Rightarrow> Inl e
           | Inr h' \<Rightarrow> Inr (RObj this, h'))
        \<and> each this (VFun (Opaque k)) h
          = Inr (RObj this,
                 h\<lparr>calls := calls h
                      @ map (\<lambda>n. (k, get_prop this (Index n), [VNum (int n)])) [0..<l]\<rparr>))
   \<and> (get_prop this (Named ''length'') = VUndefined \<longrightarrow>
        each this (VFun f) h = Inr (RObj this, h))"
proof (intro conjI impI)
  assume "typeof fn \<noteq> ''function''"
  then show "each this fn h = Inr (RVal (VBool False), h)"
    by (cases fn) simp_all
next
  assume "get_prop this (Named ''length'') = VNum (int l)"
  then show "each this (VFun f) h
      = (case call_in_order f (map (\<lambda>n. (get_prop this (Index n), [VNum (int n)])) [0..<l]) h of
           Inl e \<Rightarrow> Inl e
         | Inr h' \<Rightarrow> Inr (RObj this, h'))"
    using for_loop_calls [of 0 l f this h] by simp
next
  assume "get_prop this (Named ''length'') = VNum (int l)"
  then show "each this (VFun (Opaque k)) h
      = Inr (RObj this,
             h\<lparr>calls := calls h
                  @ map (\<lambda>n. (k, get_prop this (Index n), [VNum (int n)])) [0..<l]\<rparr>)"
    using for_loop_calls [of 0 l "Opaque k" this h]
    by (simp add: call_in_order_callback comp_def)
next
  assume "get_prop this (Named ''length'') = VUndefined"
  then show "each this (VFun f) h = Inr (RObj this, h)"
    by (simp add: for_loop.simps [of _ 0])
qed

theorem each_invokes_in_order_witness:
  "each three_items (VStr ''f'') modern_host = Inr (RVal (VBool False), modern_host)
   \<and> each three_items (VFun (Opaque 7)) modern_host
     = Inr (RObj three_items,
            modern_host\<lparr>calls := [(7, VElem 0, [VNum 0]), (7, VElem 1, [VNum 1]), (7, VElem 2, [VNum 2])]\<rparr>)
   \<and> each Map.empty (VFun (Opaque 7)) modern_host = Inr (RObj Map.empty, modern_host)"
proof -
  have len: "get_prop three_items (Named ''length'') = VNum (int 3)"
    "get_prop Map.empty (Named ''length'') = VUndefined"
    by (simp_all add: get_prop_def three_items_def method_names_def)
  have items: "map (\<lambda>n. (7::nat, get_prop three_items (Index n), [VNum (int n)])) [0..<3]
      = [(7, VElem 0, [VNum 0]), (7, VElem 1, [VNum 1]), (7, VElem 2, [VNum 2])]"
    by (simp add: get_prop_def three_items_def upt_rec)
  have none: "calls modern_host = []" by (simp add: modern_host_def)
  note held = each_invokes_in_order [of "VStr ''f''" three_items modern_host 3 "Opaque 7" 7]
  note empty = each_invokes_in_order [of "VStr ''f''" Map.empty modern_host 3 "Opaque 7" 7]
  have "each three_items (VStr ''f'') modern_host = Inr (RVal (VBool False), modern_host)"
    using held by (simp del: each.simps)
  moreover have "each three_items (VFun (Opaque 7)) modern_host
      = Inr (RObj three_items, modern_host\<lparr>calls := calls modern_host
          @ map (\<lambda>n. (7, get_prop three_items (Index n), [VNum (int n)])) [0..<3]\<rparr>)"
    using held len(1) by blast
  moreover have "each Map.empty (VFun (Opaque 7)) modern_host = Inr (RObj Map.empty, modern_host)"
    using empty len(2) by blast
  ultimately show ?thesis
    by (simp add: items none del: each.simps)
qed

text \<open>On a wrapper that the constructor built, \<^verbatim>\<open>each\<close> calls nothing.\<close>

lemma each_on_constructed:
  "simpleDOM selector h = Inr (w, h') \<Longrightarrow> each w (VFun (Opaque k)) g = Inr (RObj w, g)"
  by (auto simp: simpleDOM_def get_prop_def method_names_def for_loop.simps [of _ 0]
      dest!: simpleDOMEngine_props)

text \<open>So do \<^verbatim>\<open>addClass\<close> and \<^verbatim>\<open>removeClass\<close> change nothing on it, and \<^verbatim>\<open>hasClass\<close> is false.\<close>

lemma class_methods_on_constructed:
  assumes "simpleDOM selector h = Inr (w, h')"
  shows "addClass w name g = Inr (RObj w, g)"
    and "RegExp (class_pattern name) = Inr r \<Longrightarrow> removeClass w name g = Inr (RObj w, g)"
    and "RegExp (class_pattern name) = Inr r \<Longrightarrow> hasClass w name g = Inr (VBool False)"
  using constructed_holds_nothing [OF assms]
  by (simp_all add: addClass_def removeClass_def hasClass_def for_loop.simps [of _ 0])

section \<open>The readiness callback\<close>

text \<open>
  Claim C9. \<^verbatim>\<open>ready(fn)\<close> changes nothing when \<^verbatim>\<open>fn\<close> is not a function. Otherwise it
  stores the handler built around \<^verbatim>\<open>fn\<close> in the one \<^verbatim>\<open>onreadystatechange\<close> slot, whatever
  the slot held, so that a second registration discards the first; and the handler, run
  while the loading state is \<^verbatim>\<open>"complete"\<close> or \<^verbatim>\<open>"loaded"\<close>, calls \<^verbatim>\<open>fn\<close> with no receiver and
  no argument, whatever receiver and arguments the host gave to the handler.
\<close>

theorem ready_single_slot:
  "(typeof fn \<noteq> ''function'' \<longrightarrow> ready fn h = h)
   \<and> ready (VFun f) h = h\<lparr>onreadystatechange := VFun (ReadyHandler f)\<rparr>
   \<and> onreadystatechange (ready (VFun g) (ready (VFun f) h)) = VFun (ReadyHandler g)
   \<and> (readyState d = ''complete'' \<or> readyState d = ''loaded'' \<longrightarrow>
        call_function (ReadyHandler f) receiver args d = call_function f VUndefined [] d
        \<and> call_function (ReadyHandler (Opaque k)) receiver args d
          = Inr (d\<lparr>calls := calls d @ [(k, VUndefined, [])]\<rparr>))"
proof (intro conjI impI)
  assume "typeof fn \<noteq> ''function''"
  then show "ready fn h = h" by (cases fn) simp_all
next
  show "ready (VFun f) h = h\<lparr>onreadystatechange := VFun (ReadyHandler f)\<rparr>" by simp
next
  show "onreadystatechange (ready (VFun g) (ready (VFun f) h)) = VFun (ReadyHandler g)" by simp
next
  assume loaded: "readyState d = ''complete'' \<or> readyState d = ''loaded''"
  then show "call_function (ReadyHandler f) receiver args d = call_function f VUndefined [] d"
    by auto
  from loaded show "call_function (ReadyHandler (Opaque k)) receiver args d
      = Inr (d\<lparr>calls := calls d @ [(k, VUndefined, [])]\<rparr>)"
    by auto
qed

theorem ready_single_slot_witness:
  "ready (VNum 1) modern_host = modern_host
   \<and> onreadystatechange (ready (VFun (Opaque 2)) (ready (VFun (Opaque 1)) modern_host))
     = VFun (ReadyHandler (Opaque 2))
   \<and> call_function (ReadyHandler (Opaque 2)) VNull [VNum 0] (modern_host\<lparr>readyState := ''complete''\<rparr>)
     = Inr (modern_host\<lparr>readyState := ''complete'', calls := [(2, VUndefined, [])]\<rparr>)
   \<and> call_function (ReadyHandler (Opaque 2)) VNull [VNum 0] (modern_host\<lparr>readyState := ''loaded''\<rparr>)
     = Inr (modern_host\<lparr>readyState := ''loaded'', calls := [(2, VUndefined, [])]\<rparr>)"
proof -
  have c: "calls modern_host = []" by (simp add: modern_host_def)
  show ?thesis
    using ready_single_slot [of "VNum 1" modern_host "Opaque 1" "Opaque 2"
        "modern_host\<lparr>readyState := ''complete''\<rparr>" VNull "[VNum 0]" 2]
      ready_single_slot [of "VNum 1" modern_host "Opaque 1" "Opaque 2"
        "modern_host\<lparr>readyState := ''loaded''\<rparr>" VNull "[VNum 0]" 2] c
    by simp
qed

lemma ready_handler_waits:
  "readyState d \<noteq> ''complete'' \<Longrightarrow> readyState d \<noteq> ''loaded'' \<Longrightarrow>
   call_function (ReadyHandler f) receiver args d = Inr d"
  by simp

section \<open>Attributes: reading\<close>

lemma attr_read_without_first_element:
  "get_prop this (Index 0) = VUndefined \<Longrightarrow> attr this name VUndefined h = Inl TypeError"
  by (simp add: attr_def)

text \<open>
  Claim C3 asks that the read form of \<^verbatim>\<open>attr\<close> on a wrapper without elements returns an
  absent value. The code reads \<^verbatim>\<open>this[0].getAttribute\<close> without a guard (\<^verbatim>\<open>hasClass\<close> has
  one): on the wrapper built from \<^verbatim>\<open>"#missing"\<close> on a host without a native query,
  \<^verbatim>\<open>attr("title")\<close> throws a TypeError.
\<close>

theorem attr_read_on_empty_throws:
  "(\<exists>w. simpleDOM (VStr ''#missing'') legacy_host = Inr (w, legacy_host)
        \<and> get_prop w (Named ''length'') = VUndefined
        \<and> attr w ''title'' VUndefined legacy_host = Inl TypeError)
   \<and> resolve_matches (VStr ''#missing'') legacy_host = Inr (VArray [VNull], legacy_host)"
  by (simp add: simpleDOM_def simpleDOMEngine_def resolve_matches_def legacy_host_def
      modern_host_def get_prop_def method_names_def attr_def starts_with_hash_def
      element_or_null_def)

section \<open>Attributes: writing\<close>

lemma attr_create_without_val:
  assumes "get_prop this (Index 0) = VElem e" and "\<not> hasAttr h (elements h e) name"
    and "valid_name h name" and "globals h ''val'' = None" and "v \<noteq> VUndefined"
  shows "attr this name v h = Inl ReferenceError"
  using assms by (simp add: attr_def)

text \<open>
  Claim C4 asks that \<^verbatim>\<open>attr(a, v)\<close> on an element without the attribute \<^verbatim>\<open>a\<close> creates it
  with the value \<^verbatim>\<open>v\<close>. The code assigns the variable \<^verbatim>\<open>val\<close>, not its parameter
  \<^verbatim>\<open>value\<close>: on a wrapper that holds the element, \<^verbatim>\<open>attr("data-x", "1")\<close> throws a
  ReferenceError and leaves the element without the attribute, and on a page with a global
  variable \<^verbatim>\<open>val\<close> the new attribute gets the value of that variable. On the wrapper that
  the constructor builds for the element, which does not hold it, the call throws a
  TypeError before it gets there.
\<close>

theorem attr_create_reads_val:
  "attr one_item ''data-x'' (VStr ''1'') modern_host = Inl ReferenceError
   \<and> attrs (elements modern_host 0) ''data-x'' = None
   \<and> attr one_item ''data-x'' (VStr ''1'') (modern_host\<lparr>globals := [''val'' \<mapsto> VStr ''other'']\<rparr>)
     = Inr (RObj one_item,
            update_attrs 0 (\<lambda>m. m(''data-x'' \<mapsto> ''other''))
              (modern_host\<lparr>globals := [''val'' \<mapsto> VStr ''other'']\<rparr>))
   \<and> (\<exists>w. simpleDOM (VElem 0) modern_host = Inr (w, modern_host)
         \<and> attr w ''data-x'' (VStr ''1'') modern_host = Inl TypeError)"
  by (simp add: attr_def one_item_def get_prop_def modern_host_def blank_element_def hasAttr_def
      setAttribute_def simpleDOM_def simpleDOMEngine_def resolve_matches_def method_names_def)

section \<open>Loops over the elements of a wrapper\<close>

lemma holds_one_item: "holds one_item [0]"
  by (simp add: holds_def one_item_def get_prop_def)

lemma holds_two_items: "holds two_items [0, 1]"
  by (simp add: holds_def two_items_def get_prop_def)

lemma holds_nth: "holds this es \<Longrightarrow> n < length es \<Longrightarrow> get_prop this (Index n) = VElem (es ! n)"
proof -
  assume h: "holds this es" and n: "n < length es"
  then have "map (\<lambda>n. get_prop this (Index n)) [0..<length es] ! n = map VElem es ! n"
    by (simp add: holds_def)
  with n show ?thesis by simp
qed

lemma for_loop_elements:
  assumes "holds this es"
    and step: "\<And>e h. body (VElem e) h = Inr (assign_className e (f (className (elements h e))) h)"
  shows "n \<le> length es \<Longrightarrow>
    for_loop (\<lambda>i. body (get_prop this (Index i))) n (VNum (int (length es))) h
    = Inr (update_classes f (drop n es) h)"
proof (induction "length es - n" arbitrary: n h)
  case 0
  then show ?case by (simp add: for_loop.simps [of _ n] update_classes_def)
next
  case (Suc d)
  then have lt: "n < length es" by simp
  then have drop: "drop n es = es ! n # drop (Suc n) es"
    by (simp add: Cons_nth_drop_Suc)
  have "d = length es - Suc n" and "Suc n \<le> length es" using Suc.hyps(2) by auto
  from Suc.hyps(1) [OF this] lt show ?case
    by (simp add: for_loop.simps [of _ n] holds_nth [OF assms(1)] step drop update_classes_def)
qed

lemma className_set [simp]: "className (set_className s el) = s"
  by (simp add: className_def set_className_def)

lemma update_classes_other:
  "e \<notin> set es \<Longrightarrow> elements (update_classes f es h) e = elements h e"
  by (induction es arbitrary: h) (auto simp: update_classes_def assign_className_def)

lemma update_classes_distinct:
  "distinct es \<Longrightarrow> e \<in> set es \<Longrightarrow>
   className (elements (update_classes f es h) e) = f (className (elements h e))"
proof (induction es arbitrary: h)
  case Nil
  then show ?case by simp
next
  case (Cons x es)
  have unfold: "update_classes f (x # es) h
      = update_classes f es (assign_className x (f (className (elements h x))) h)"
    by (simp add: update_classes_def)
  show ?case
  proof (cases "e = x")
    case True
    with Cons.prems have "e \<notin> set es" by simp
    then show ?thesis
      unfolding unfold using True by (simp add: update_classes_other assign_className_def)
  next
    case False
    with Cons.prems have "e \<in> set es" "distinct es" by simp_all
    with Cons.IH False show ?thesis
      unfolding unfold by (simp add: assign_className_def)
  qed
qed

section \<open>\<^verbatim>\<open>addClass\<close>\<close>

lemma split_space_nonempty: "split_space s \<noteq> []"
  by (induction s) (auto split: list.splits)

lemma join_split: "join_space (split_space s) = s"
proof (induction s)
  case Nil
  then show ?case by simp
next
  case (Cons c s)
  obtain w ws where ws: "split_space s = w # ws"
    using split_space_nonempty [of s] by (cases "split_space s") auto
  with Cons show ?case by (cases ws) auto
qed

lemma join_snoc: "ws \<noteq> [] \<Longrightarrow> join_space (ws @ [w]) = join_space ws @ '' '' @ w"
  by (induction ws rule: join_space.induct) auto

lemma join_getClasses: "join_space (getClasses el @ [name]) = add_token name (className el)"
  by (simp add: getClasses_def add_token_def join_snoc split_space_nonempty join_split)

lemma addClass_elements:
  assumes "holds this es"
  shows "addClass this name h = Inr (RObj this, update_classes (add_token name) es h)"
proof -
  have "addClass_body name (VElem e) h
      = Inr (assign_className e (add_token name (className (elements h e))) h)" for e h
    by (simp add: join_getClasses)
  from for_loop_elements [OF assms this, of 0] show ?thesis
    using assms by (simp add: addClass_def holds_def)
qed

text \<open>
  Claim C8. For a wrapper that holds the elements \<open>es\<close>, each once, and for each of
  them: a call of \<^verbatim>\<open>addClass(name)\<close> returns the wrapper and sets the class attribute to
  the element's class list with \<open>name\<close> appended, joined by single spaces; it does so
  again on the second call, whether or not the name is there already, so that after two
  calls with a name that is not empty the class attribute is the first class list with
  the name appended twice.
\<close>

theorem addClass_appends:
  assumes "holds this es" and "distinct es" and "e \<in> set es"
  shows "\<exists>h1 h2. addClass this name h = Inr (RObj this, h1)
      \<and> addClass this name h1 = Inr (RObj this, h2)
      \<and> className (elements h1 e) = join_space (getClasses (elements h e) @ [name])
      \<and> className (elements h2 e) = join_space (getClasses (elements h1 e) @ [name])
      \<and> (name \<noteq> [] \<longrightarrow>
           className (elements h2 e) = join_space (getClasses (elements h e) @ [name, name]))"
proof -
  define h1 where "h1 = update_classes (add_token name) es h"
  define h2 where "h2 = update_classes (add_token name) es h1"
  have c1: "className (elements h1 e) = add_token name (className (elements h e))"
    unfolding h1_def using assms by (simp add: update_classes_distinct)
  have c2: "className (elements h2 e) = add_token name (className (elements h1 e))"
    unfolding h2_def using assms by (simp add: update_classes_distinct)
  have twice: "add_token name (add_token name c) = join_space (getClasses el @ [name, name])"
    if "name \<noteq> []" and "c = className el" for c el
  proof -
    have "join_space ((getClasses el @ [name]) @ [name])
        = join_space (getClasses el @ [name]) @ '' '' @ name"
      by (rule join_snoc) simp
    with that show ?thesis
      by (simp add: join_getClasses) (simp add: add_token_def)
  qed
  have "addClass this name h = Inr (RObj this, h1)"
    and "addClass this name h1 = Inr (RObj this, h2)"
    unfolding h1_def h2_def using assms(1) by (rule addClass_elements)+
  moreover note c1 [folded join_getClasses] c2 [folded join_getClasses]
  moreover have "name \<noteq> [] \<longrightarrow>
      className (elements h2 e) = join_space (getClasses (elements h e) @ [name, name])"
    using twice [of "className (elements h e)" "elements h e"] c1 c2 by simp
  ultimately show ?thesis by blast
qed

theorem addClass_appends_witness:
  "\<exists>h1 h2. addClass two_items ''x'' (class_host ''a b'' []) = Inr (RObj two_items, h1)
      \<and> addClass two_items ''x'' h1 = Inr (RObj two_items, h2)
      \<and> className (elements h1 0) = ''a b x''
      \<and> className (elements h2 0) = ''a b x x''"
proof -
  have start: "getClasses (elements (class_host ''a b'' []) 0) = [''a'', ''b'']"
    by (simp add: getClasses_def eval_host)
  from addClass_appends [OF holds_two_items, of 0 "''x''" "class_host ''a b'' []"]
  show ?thesis
    unfolding start by simp blast
qed

section \<open>The pattern of a literal class name\<close>

lemma tokenize_literal:
  "literal_name name \<Longrightarrow> tokenize rest = Inr ts \<Longrightarrow>
   tokenize (name @ rest) = Inr (map TChar name @ ts)"
proof (induction name)
  case Nil
  then show ?case by simp
next
  case (Cons c name)
  then have c: "\<not> syntax_char c" and rest: "tokenize (name @ rest) = Inr (map TChar name @ ts)"
    by (simp_all add: literal_name_def)
  from c have "c \<noteq> CHR 0x5C" "c \<noteq> CHR ''(''" "c \<noteq> CHR '')''" "c \<noteq> CHR ''|''" "c \<noteq> CHR ''*''"
    "c \<noteq> CHR ''+''" "c \<noteq> CHR ''?''" "c \<noteq> CHR ''^''" "c \<noteq> CHR ''$''" "c \<noteq> CHR ''.''"
    by (auto simp: syntax_char_def)
  with c rest show ?case by (simp add: cons_token_def)
qed

lemma tokenize_class_pattern:
  assumes "literal_name name"
  shows "tokenize (class_pattern name)
    = Inr ([TOpen NonCapturing, TBol, TBar, TClass True, TClose] @ map TChar name
           @ [TOpen NegLookahead, TClass False, TClose])"
proof -
  have "tokenize (''(?!'' @ [CHR 0x5C] @ ''S)'') = Inr [TOpen NegLookahead, TClass False, TClose]"
    by (simp add: cons_token_def)
  from tokenize_literal [OF assms this]
  show ?thesis by (simp add: class_pattern_def cons_token_def)
qed

lemma parse_literal:
  "parse (map TChar name @ ts) alts cur stack
   = parse ts alts (rev (map (\<lambda>c. (Chr c, Atom)) name) @ cur) stack"
  by (induction name arbitrary: cur) simp_all

lemma seq_of_literal:
  "seq_of (rev (map (\<lambda>c. (Chr c, Atom)) name) @ cur) acc = seq_of cur (literals name acc)"
  by (induction name arbitrary: acc rule: rev_induct) (simp_all add: literals_def)

lemma RegExp_class_pattern:
  "literal_name name \<Longrightarrow> RegExp (class_pattern name) = Inr (class_regex name)"
  by (simp add: RegExp_def tokenize_class_pattern parse_literal finish_def seq_of_literal
      class_regex_def)

lemma literal_examples: "literal_name ''x''" "literal_name ''a''" "literal_name ''foo''"
  by (simp_all add: literal_name_def syntax_char_def)

section \<open>Matching the pattern of a literal class name\<close>

lemma matches_literals:
  "i \<le> length s \<Longrightarrow> matches (literals name r) s i =
     (if i + length name \<le> length s \<and> take (length name) (drop i s) = name
      then matches r s (i + length name) else [])"
proof (induction name arbitrary: i)
  case Nil
  then show ?case by (simp add: literals_def)
next
  case (Cons c name)
  have unfold: "literals (c # name) r = Seq (Chr c) (literals name r)"
    by (simp add: literals_def)
  show ?case
  proof (cases "i < length s")
    case True
    then have "drop i s = s ! i # drop (Suc i) s"
      by (simp add: Cons_nth_drop_Suc)
    with True show ?thesis
      by (auto simp: unfold Cons.IH)
  next
    case False
    then show ?thesis by (simp add: unfold)
  qed
qed

lemma matches_boundary:
  "p \<le> length s \<Longrightarrow>
   matches (Seq (NLook (Seq (Cls False) Eps)) Eps) s p
   = (if p = length s \<or> is_space (s ! p) then [p] else [])"
  by auto

lemma matches_class_regex:
  "matches (class_regex name) s k =
     (if k = 0 \<and> token_at name s 0 then [length name] else [])
     @ (if token_at name s (Suc k) then [Suc k + length name] else [])"
proof -
  define body where "body = literals name (Seq (NLook (Seq (Cls False) Eps)) Eps)"
  have body: "matches body s i =
      (if i + length name \<le> length s \<and> take (length name) (drop i s) = name
          \<and> (i + length name = length s \<or> is_space (s ! (i + length name)))
       then [i + length name] else [])" if "i \<le> length s" for i
    unfolding body_def using that
    by (simp add: matches_literals matches_boundary del: matches.simps)
  have split: "matches (class_regex name) s k =
      (if k = 0 then matches body s 0 else [])
      @ (if k < length s \<and> is_space (s ! k) then matches body s (Suc k) else [])"
    by (auto simp: class_regex_def body_def)
  have left: "(if k = 0 then matches body s 0 else [])
      = (if k = 0 \<and> token_at name s 0 then [length name] else [])"
    using body [of 0] by (simp add: token_at_def)
  have right: "(if k < length s \<and> is_space (s ! k) then matches body s (Suc k) else [])
      = (if token_at name s (Suc k) then [Suc k + length name] else [])"
  proof (cases "k < length s")
    case True
    then show ?thesis using body [of "Suc k"] by (simp add: token_at_def)
  next
    case False
    then show ?thesis by (simp add: token_at_def)
  qed
  show ?thesis by (simp only: split left right)
qed

lemma search_none:
  "(\<And>j. k \<le> j \<Longrightarrow> j \<le> length s \<Longrightarrow> matches r s j = []) \<Longrightarrow> search r s k = None"
proof (induction r s k rule: search.induct)
  case (1 r s k)
  show ?case
  proof (cases "length s < k")
    case True
    then show ?thesis by (simp add: search.simps)
  next
    case False
    then have "matches r s k = []" using "1.prems" by simp
    moreover have "search r s (Suc k) = None"
      using "1.IH" [OF False \<open>matches r s k = []\<close>] "1.prems" by simp
    ultimately show ?thesis using False by (simp add: search.simps [of r s k])
  qed
qed

lemma search_first:
  "k \<le> j \<Longrightarrow> j \<le> length s \<Longrightarrow> matches r s j = e # es \<Longrightarrow>
   (\<And>j'. k \<le> j' \<Longrightarrow> j' < j \<Longrightarrow> matches r s j' = []) \<Longrightarrow> search r s k = Some (j, e)"
proof (induction r s k rule: search.induct)
  case (1 r s k)
  show ?case
  proof (cases "k = j")
    case True
    with "1.prems" show ?thesis by (simp add: search.simps [of r s j])
  next
    case False
    with "1.prems" have lt: "k < j" by simp
    then have empty: "matches r s k = []" using "1.prems" by simp
    have notend: "\<not> length s < k" using lt "1.prems" by simp
    have "search r s (Suc k) = Some (j, e)"
      using "1.IH" [OF notend empty] lt "1.prems" by simp
    with empty notend show ?thesis by (simp add: search.simps [of r s k])
  qed
qed

lemma token_at_bound: "token_at name s i \<Longrightarrow> i \<le> length s"
  by (simp add: token_at_def)

lemma first_token_none: "first_token name s = None \<longleftrightarrow> (\<forall>i. \<not> token_at name s i)"
proof -
  have "i \<in> set [0..<Suc (length s)]" if "token_at name s i" for i
    using token_at_bound [OF that] by (simp del: upt_Suc)
  then show ?thesis
    unfolding first_token_def find_None_iff by blast
qed

lemma first_token_some:
  "first_token name s = Some i \<longleftrightarrow> token_at name s i \<and> (\<forall>j<i. \<not> token_at name s j)"
proof
  assume "first_token name s = Some i"
  then obtain n where n: "n < Suc (length s)" "token_at name s ([0..<Suc (length s)] ! n)"
      "i = [0..<Suc (length s)] ! n" "\<forall>j<n. \<not> token_at name s ([0..<Suc (length s)] ! j)"
    unfolding first_token_def find_Some_iff by auto
  have "[0..<Suc (length s)] ! m = m" if "m \<le> n" for m
    using that n(1) by (metis add_0 le_imp_less_Suc less_Suc_eq_le nth_upt order.strict_trans1)
  with n show "token_at name s i \<and> (\<forall>j<i. \<not> token_at name s j)"
    by (metis less_imp_le_nat order_refl)
next
  assume a: "token_at name s i \<and> (\<forall>j<i. \<not> token_at name s j)"
  then have "i < Suc (length s)" using token_at_bound [of name s i] by simp
  then have "[0..<Suc (length s)] ! i = i" "i < length [0..<Suc (length s)]"
    by (simp_all del: upt_Suc)
  moreover have "\<forall>j<i. [0..<Suc (length s)] ! j = j"
    using \<open>i < Suc (length s)\<close> by (simp del: upt_Suc)
  ultimately show "first_token name s = Some i"
    unfolding first_token_def find_Some_iff using a by (metis)
qed

lemma search_class_regex:
  "search (class_regex name) s 0 =
     (case first_token name s of None \<Rightarrow> None | Some i \<Rightarrow> Some (i - 1, i + length name))"
proof (cases "first_token name s")
  case None
  then have "\<forall>i. \<not> token_at name s i" by (simp add: first_token_none)
  then have "search (class_regex name) s 0 = None"
    by (intro search_none) (simp add: matches_class_regex)
  with None show ?thesis by simp
next
  case (Some i)
  then have tok: "token_at name s i" and least: "\<forall>j<i. \<not> token_at name s j"
    by (simp_all add: first_token_some)
  have bound: "i \<le> length s" using tok by (rule token_at_bound)
  show ?thesis
  proof (cases i)
    case 0
    with tok have "matches (class_regex name) s 0 = length name # (if token_at name s (Suc 0) then [Suc 0 + length name] else [])"
      by (simp add: matches_class_regex)
    then have "search (class_regex name) s 0 = Some (0, length name)"
      by (intro search_first) simp_all
    with Some 0 show ?thesis by simp
  next
    case (Suc k)
    have "matches (class_regex name) s k = [Suc k + length name]"
      using tok least Suc by (auto simp: matches_class_regex)
    moreover have "matches (class_regex name) s j = []" if "j < k" for j
      using that least Suc by (auto simp: matches_class_regex)
    ultimately have "search (class_regex name) s 0 = Some (k, Suc k + length name)"
      using bound Suc by (intro search_first) simp_all
    with Some Suc show ?thesis by simp
  qed
qed

lemma string_replace_class_regex:
  "string_replace (class_regex name) s = remove_first_token name s"
  by (simp add: string_replace_def remove_first_token_def search_class_regex split: option.splits)

lemma string_match_class_regex:
  "string_match (class_regex name) s = VNull \<longleftrightarrow> \<not> has_token name s"
  by (simp add: string_match_def has_token_def search_class_regex split: option.splits)

lemma remove_first_token_absent:
  "(\<And>i. \<not> token_at name s i) \<Longrightarrow> remove_first_token name s = s"
  by (simp add: remove_first_token_def first_token_none [THEN iffD2])

lemma remove_first_token_leftmost:
  "token_at name s i \<Longrightarrow> (\<And>j. j < i \<Longrightarrow> \<not> token_at name s j) \<Longrightarrow>
   remove_first_token name s = take (i - 1) s @ drop (i + length name) s"
proof -
  assume "token_at name s i" and "\<And>j. j < i \<Longrightarrow> \<not> token_at name s j"
  then have "first_token name s = Some i" by (simp add: first_token_some)
  then show ?thesis by (simp add: remove_first_token_def)
qed

section \<open>\<^verbatim>\<open>removeClass\<close>\<close>

lemma removeClass_parsed:
  assumes "holds this es" and "RegExp (class_pattern name) = Inr r"
  shows "removeClass this name h = Inr (RObj this, update_classes (string_replace r) es h)"
proof -
  have "removeClass_body r (VElem e) g
      = Inr (assign_className e (string_replace r (className (elements g e))) g)" for e g
    by simp
  from for_loop_elements [of this es "removeClass_body r" "string_replace r", OF assms(1) this, of 0 h]
  show ?thesis
    using assms by (simp add: removeClass_def holds_def)
qed

lemma removeClass_elements:
  assumes "holds this es" and "literal_name name"
  shows "removeClass this name h = Inr (RObj this, update_classes (remove_first_token name) es h)"
proof -
  have "removeClass_body (class_regex name) (VElem e) h
      = Inr (assign_className e (remove_first_token name (className (elements h e))) h)" for e h
    by (simp add: string_replace_class_regex)
  from for_loop_elements [OF assms(1) this, of 0] show ?thesis
    using assms by (simp add: removeClass_def holds_def RegExp_class_pattern)
qed

text \<open>
  Claim C7, amended. For a class name without syntax characters and a wrapper that holds
  the elements \<open>es\<close>, each once: \<^verbatim>\<open>removeClass(name)\<close> returns the wrapper, and in the
  class attribute of each element it holds it deletes the leftmost occurrence of the name
  as a standalone token, with the whitespace character in front of it if there is one,
  and nothing else; an attribute without such an occurrence stays as it is, and so does
  every element that the wrapper does not hold. (\<open>remove_first_token_absent\<close> and
  \<open>remove_first_token_leftmost\<close> spell \<open>remove_first_token\<close> out.)
\<close>

theorem removeClass_first_occurrence:
  assumes "literal_name name" and "holds this es" and "distinct es"
  shows "\<exists>h'. removeClass this name h = Inr (RObj this, h')
      \<and> (e \<in> set es \<longrightarrow>
           className (elements h' e) = remove_first_token name (className (elements h e)))
      \<and> (e \<notin> set es \<longrightarrow> elements h' e = elements h e)"
proof -
  define h' where "h' = update_classes (remove_first_token name) es h"
  have "removeClass this name h = Inr (RObj this, h')"
    unfolding h'_def using assms(2,1) by (rule removeClass_elements)
  moreover have "className (elements h' e) = remove_first_token name (className (elements h e))"
    if "e \<in> set es"
    unfolding h'_def using assms(3) that by (rule update_classes_distinct)
  moreover have "elements h' e = elements h e" if "e \<notin> set es"
    unfolding h'_def using that by (rule update_classes_other)
  ultimately show ?thesis by blast
qed

theorem removeClass_first_occurrence_witness:
  "(\<exists>h'. removeClass two_items ''foo'' (class_host ''bar foo  baz foo'' ''foo'')
            = Inr (RObj two_items, h')
        \<and> className (elements h' 0) = ''bar  baz foo'')
   \<and> (\<exists>h'. removeClass two_items ''foo'' (class_host ''bar foo  baz foo'' ''foo'')
            = Inr (RObj two_items, h')
        \<and> className (elements h' 1) = [])"
proof -
  have first: "remove_first_token ''foo'' ''bar foo  baz foo'' = ''bar  baz foo''"
    by code_simp
  have second: "remove_first_token ''foo'' ''foo'' = []"
    by code_simp
  have classes: "className (elements (class_host ''bar foo  baz foo'' ''foo'') 0) = ''bar foo  baz foo''"
    "className (elements (class_host ''bar foo  baz foo'' ''foo'') 1) = ''foo''"
    by (simp_all add: eval_host)
  from removeClass_first_occurrence [OF literal_examples(3) holds_two_items, of
      "class_host ''bar foo  baz foo'' ''foo''" 0]
    removeClass_first_occurrence [OF literal_examples(3) holds_two_items, of
      "class_host ''bar foo  baz foo'' ''foo''" 1]
  show ?thesis
    unfolding classes first second by simp
qed

text \<open>
  Claim C7 as it stands fails in two ways. Of two occurrences only the first is removed:
  from \<^verbatim>\<open>"a a"\<close> the call \<^verbatim>\<open>removeClass("a")\<close> leaves \<^verbatim>\<open>" a"\<close>, which still holds the token.
  And a name with a syntax character removes what its pattern matches: \<^verbatim>\<open>removeClass("t.p")\<close>
  takes \<^verbatim>\<open>top\<close> out of \<^verbatim>\<open>"top nav"\<close>, where \<^verbatim>\<open>t.p\<close> is no token.
\<close>

theorem removeClass_counterexample:
  "(\<exists>h'. removeClass one_item ''a'' (class_host ''a a'' []) = Inr (RObj one_item, h')
        \<and> className (elements h' 0) = '' a'' \<and> has_token ''a'' '' a'')
   \<and> (\<exists>h'. removeClass one_item ''t.p'' (class_host ''top nav'' []) = Inr (RObj one_item, h')
        \<and> className (elements h' 0) = '' nav'' \<and> has_token ''top'' ''top nav''
        \<and> \<not> has_token ''t.p'' ''top nav'')"
proof -
  have re: "RegExp (class_pattern ''t.p'')
      = Inr (Seq (Alt (Seq Bol Eps) (Seq (Cls True) Eps))
              (Seq (Chr CHR ''t'') (Seq Dot (Seq (Chr CHR ''p'')
                (Seq (NLook (Seq (Cls False) Eps)) Eps)))))"
    by (simp add: eval_regex)
  have cut: "string_replace (Seq (Alt (Seq Bol Eps) (Seq (Cls True) Eps))
              (Seq (Chr CHR ''t'') (Seq Dot (Seq (Chr CHR ''p'')
                (Seq (NLook (Seq (Cls False) Eps)) Eps))))) ''top nav'' = '' nav''"
    by (simp add: eval_regex)
  have one: "remove_first_token ''a'' ''a a'' = '' a''" by code_simp
  have tokens: "has_token ''a'' '' a''" "has_token ''top'' ''top nav''"
      "\<not> has_token ''t.p'' ''top nav''"
    by code_simp+
  have "removeClass one_item ''a'' (class_host ''a a'' [])
      = Inr (RObj one_item, update_classes (remove_first_token ''a'') [0] (class_host ''a a'' []))"
    using holds_one_item literal_examples(2) by (rule removeClass_elements)
  moreover have "removeClass one_item ''t.p'' (class_host ''top nav'' [])
      = Inr (RObj one_item, update_classes (string_replace (Seq (Alt (Seq Bol Eps) (Seq (Cls True) Eps))
              (Seq (Chr CHR ''t'') (Seq Dot (Seq (Chr CHR ''p'')
                (Seq (NLook (Seq (Cls False) Eps)) Eps)))))) [0] (class_host ''top nav'' []))"
    using holds_one_item re by (rule removeClass_parsed)
  ultimately show ?thesis
    by (simp add: update_classes_def one cut tokens eval_host)
qed

section \<open>\<^verbatim>\<open>addClass\<close> followed by \<^verbatim>\<open>removeClass\<close>\<close>

text \<open>
  Claim C5, amended. For a class name without syntax characters (with or without
  whitespace), a wrapper that holds the elements \<open>es\<close>, each once, and each of them whose
  class attribute is empty: after \<^verbatim>\<open>addClass(name)\<close> the class attribute is the name, and
  after \<^verbatim>\<open>removeClass(name)\<close> it is empty again.
\<close>

theorem add_then_remove_literal:
  assumes "literal_name name" and "holds this es" and "distinct es" and "e \<in> set es"
    and "className (elements h e) = []"
  shows "\<exists>h1 h2. addClass this name h = Inr (RObj this, h1)
      \<and> removeClass this name h1 = Inr (RObj this, h2)
      \<and> className (elements h1 e) = name
      \<and> className (elements h2 e) = []"
proof -
  define h1 where "h1 = update_classes (add_token name) es h"
  define h2 where "h2 = update_classes (remove_first_token name) es h1"
  have c1: "className (elements h1 e) = name"
    unfolding h1_def using assms by (simp add: update_classes_distinct add_token_def)
  have "token_at name name 0" by (simp add: token_at_def)
  then have "first_token name name = Some 0" by (simp add: first_token_some)
  then have "remove_first_token name name = []" by (simp add: remove_first_token_def)
  then have c2: "className (elements h2 e) = []"
    unfolding h2_def using assms c1 by (simp add: update_classes_distinct)
  have "addClass this name h = Inr (RObj this, h1)"
    unfolding h1_def using assms(2) by (rule addClass_elements)
  moreover have "removeClass this name h1 = Inr (RObj this, h2)"
    unfolding h2_def using assms(2,1) by (rule removeClass_elements)
  ultimately show ?thesis using c1 c2 by blast
qed

theorem add_then_remove_literal_witness:
  "\<exists>h1 h2. addClass two_items ''x'' (class_host [] ''a b'') = Inr (RObj two_items, h1)
      \<and> removeClass two_items ''x'' h1 = Inr (RObj two_items, h2)
      \<and> className (elements h1 0) = ''x''
      \<and> className (elements h2 0) = []"
proof -
  have "className (elements (class_host [] ''a b'') 0) = []"
    by (simp add: eval_host)
  from add_then_remove_literal [OF literal_examples(1) holds_two_items _ _ this]
  show ?thesis by simp
qed

text \<open>
  Claim C5 as it stands fails for the class name \<^verbatim>\<open>a+b\<close>, which holds no whitespace: as a
  pattern it asks for one or more \<^verbatim>\<open>a\<close> and then \<^verbatim>\<open>b\<close>, which the class attribute
  \<^verbatim>\<open>"a+b"\<close> does not hold, so \<^verbatim>\<open>removeClass\<close> leaves it there.
\<close>

theorem add_then_remove_counterexample:
  "\<exists>h1 h2. addClass one_item ''a+b'' (class_host [] []) = Inr (RObj one_item, h1)
      \<and> removeClass one_item ''a+b'' h1 = Inr (RObj one_item, h2)
      \<and> className (elements (class_host [] []) 0) = []
      \<and> className (elements h2 0) = ''a+b''"
proof -
  have add: "addClass one_item ''a+b'' (class_host [] [])
      = Inr (RObj one_item, update_classes (add_token ''a+b'') [0] (class_host [] []))"
    using holds_one_item by (rule addClass_elements)
  have re: "RegExp (class_pattern ''a+b'')
      = Inr (Seq (Alt (Seq Bol Eps) (Seq (Cls True) Eps))
              (Seq (Seq (Chr CHR ''a'') (Star (Chr CHR ''a'')))
                (Seq (Chr CHR ''b'') (Seq (NLook (Seq (Cls False) Eps)) Eps))))"
    by (simp add: eval_regex)
  have remove: "removeClass one_item ''a+b'' g
      = Inr (RObj one_item, update_classes
          (string_replace (Seq (Alt (Seq Bol Eps) (Seq (Cls True) Eps))
              (Seq (Seq (Chr CHR ''a'') (Star (Chr CHR ''a'')))
                (Seq (Chr CHR ''b'') (Seq (NLook (Seq (Cls False) Eps)) Eps))))) [0] g)" for g
    using holds_one_item re by (rule removeClass_parsed)
  have stay: "string_replace (Seq (Alt (Seq Bol Eps) (Seq (Cls True) Eps))
              (Seq (Seq (Chr CHR ''a'') (Star (Chr CHR ''a'')))
                (Seq (Chr CHR ''b'') (Seq (NLook (Seq (Cls False) Eps)) Eps)))) ''a+b'' = ''a+b''"
    by (simp add: eval_regex)
  show ?thesis
    unfolding add
    by (simp add: remove update_classes_def stay add_token_def eval_host)
qed

section \<open>\<^verbatim>\<open>hasClass\<close>\<close>

lemma js_or_match:
  "js_or (string_match r s) (VBool False) = VBool False \<longleftrightarrow> string_match r s = VNull"
  by (simp add: js_or_def string_match_def split: option.splits)

lemma hasClass_parsed:
  assumes "RegExp (class_pattern name) = Inr r"
    and "get_prop this (Named ''length'') = VNum n" and "1 \<le> n"
    and "get_prop this (Index 0) = VElem e"
  shows "hasClass this name h = Inr (js_or (string_match r (className (elements h e))) (VBool False))"
  using assms by (simp add: hasClass_def)

text \<open>
  Claim C6, amended. For a class name without syntax characters: \<^verbatim>\<open>hasClass(name)\<close>
  returns \<^verbatim>\<open>false\<close> on a wrapper without a length and on one whose length is below 1; on a
  wrapper whose length is at least 1 and whose first entry is an element it returns, and
  what it returns is \<^verbatim>\<open>false\<close> if and only if the name is not a standalone token of the
  class attribute of that first element. No other entry of the wrapper is read.
\<close>

theorem hasClass_first_element:
  assumes "literal_name name"
  shows "(get_prop this (Named ''length'') = VUndefined \<longrightarrow> hasClass this name h = Inr (VBool False))
   \<and> (get_prop this (Named ''length'') = VNum n \<and> n < 1 \<longrightarrow>
        hasClass this name h = Inr (VBool False))
   \<and> (get_prop this (Named ''length'') = VNum n \<and> 1 \<le> n \<and> get_prop this (Index 0) = VElem e \<longrightarrow>
        (\<exists>r. hasClass this name h = Inr r
           \<and> (r = VBool False) = (\<not> has_token name (className (elements h e)))))"
proof (intro conjI impI)
  assume "get_prop this (Named ''length'') = VUndefined"
  then show "hasClass this name h = Inr (VBool False)"
    using assms by (simp add: hasClass_def RegExp_class_pattern)
next
  assume "get_prop this (Named ''length'') = VNum n \<and> n < 1"
  then show "hasClass this name h = Inr (VBool False)"
    using assms by (simp add: hasClass_def RegExp_class_pattern)
next
  assume a: "get_prop this (Named ''length'') = VNum n \<and> 1 \<le> n \<and> get_prop this (Index 0) = VElem e"
  have "hasClass this name h
      = Inr (js_or (string_match (class_regex name) (className (elements h e))) (VBool False))"
    using a assms by (intro hasClass_parsed [of name _ this n e]) (simp_all add: RegExp_class_pattern)
  then show "\<exists>r. hasClass this name h = Inr r
           \<and> (r = VBool False) = (\<not> has_token name (className (elements h e)))"
    by (simp add: js_or_match string_match_class_regex)
qed

theorem hasClass_first_element_witness:
  "hasClass two_items ''foo'' (class_host [] ''foo'') = Inr (VBool False)
   \<and> (\<exists>r. hasClass two_items ''foo'' (class_host ''bar foo'' []) = Inr r \<and> r \<noteq> VBool False)
   \<and> hasClass Map.empty ''foo'' (class_host ''foo'' ''foo'') = Inr (VBool False)
   \<and> hasClass (Map.empty(Named ''length'' \<mapsto> VNum 0)) ''foo'' (class_host ''foo'' ''foo'')
     = Inr (VBool False)"
proof -
  have tokens: "\<not> has_token ''foo'' []" "has_token ''foo'' ''bar foo''"
    by code_simp+
  have props: "get_prop two_items (Named ''length'') = VNum 2" "get_prop two_items (Index 0) = VElem 0"
    "get_prop Map.empty (Named ''length'') = VUndefined"
    "get_prop (Map.empty(Named ''length'' \<mapsto> VNum 0)) (Named ''length'') = VNum 0"
    by (simp_all add: two_items_def get_prop_def method_names_def)
  have classes: "className (elements (class_host [] ''foo'') 0) = []"
    "className (elements (class_host ''bar foo'' []) 0) = ''bar foo''"
    by (simp_all add: eval_host)
  from hasClass_first_element [OF literal_examples(3), of two_items "class_host [] ''foo''" 2 0]
    hasClass_first_element [OF literal_examples(3), of two_items "class_host ''bar foo'' []" 2 0]
    hasClass_first_element [OF literal_examples(3), of Map.empty "class_host ''foo'' ''foo''" 0 0]
    hasClass_first_element [OF literal_examples(3), of "Map.empty(Named ''length'' \<mapsto> VNum 0)"
      "class_host ''foo'' ''foo''" 0 0]
  show ?thesis
    unfolding props classes by (auto simp: tokens)
qed

text \<open>
  Claim C6 as it stands fails in two ways. Where the token is there, the method returns
  the array of the match and not \<^verbatim>\<open>true\<close>. And a name with a syntax character is found
  where it is not: \<^verbatim>\<open>hasClass("x.z")\<close> finds \<^verbatim>\<open>xyz\<close>.
\<close>

theorem hasClass_counterexample:
  "hasClass one_item ''foo'' (class_host ''foo'' []) = Inr (VArray [VStr ''foo''])
   \<and> has_token ''foo'' ''foo''
   \<and> hasClass one_item ''x.z'' (class_host ''xyz'' []) = Inr (VArray [VStr ''xyz''])
   \<and> \<not> has_token ''x.z'' ''xyz''"
proof -
  have props: "get_prop one_item (Named ''length'') = VNum 1" "get_prop one_item (Index 0) = VElem 0"
    by (simp_all add: one_item_def get_prop_def)
  have re1: "RegExp (class_pattern ''foo'') = Inr (class_regex ''foo'')"
    using literal_examples(3) by (rule RegExp_class_pattern)
  have re2: "RegExp (class_pattern ''x.z'')
      = Inr (Seq (Alt (Seq Bol Eps) (Seq (Cls True) Eps))
              (Seq (Chr CHR ''x'') (Seq Dot (Seq (Chr CHR ''z'')
                (Seq (NLook (Seq (Cls False) Eps)) Eps)))))"
    by (simp add: eval_regex)
  have tokens: "has_token ''foo'' ''foo''" "\<not> has_token ''x.z'' ''xyz''"
    by code_simp+
  have "hasClass one_item ''foo'' (class_host ''foo'' []) = Inr (VArray [VStr ''foo''])"
    by (subst hasClass_parsed [OF re1 props(1) _ props(2)])
      (simp_all add: eval_host eval_regex class_regex_def literals_def)
  moreover have "hasClass one_item ''x.z'' (class_host ''xyz'' []) = Inr (VArray [VStr ''xyz''])"
    by (subst hasClass_parsed [OF re2 props(1) _ props(2)]) (simp_all add: eval_host eval_regex)
  ultimately show ?thesis
    using tokens by simp
qed

section \<open>Class names with syntax characters\<close>

text \<open>
  Claim C10. \<^verbatim>\<open>removeClass\<close> and \<^verbatim>\<open>hasClass\<close> put the class name into the pattern as it
  is, so its syntax characters keep their meaning: in the pattern built from \<^verbatim>\<open>a.c\<close> the
  dot matches any character. The class attribute \<^verbatim>\<open>"abc"\<close> does not hold the text
  \<^verbatim>\<open>a.c\<close>, as a token or anywhere, yet \<^verbatim>\<open>hasClass("a.c")\<close> reports the match \<^verbatim>\<open>abc\<close> and \<^verbatim>\<open>removeClass("a.c")\<close>
  removes the token \<^verbatim>\<open>abc\<close>.
\<close>

theorem class_name_read_as_pattern:
  "RegExp (class_pattern ''a.c'')
     = Inr (Seq (Alt (Seq Bol Eps) (Seq (Cls True) Eps))
             (Seq (Chr CHR ''a'') (Seq Dot (Seq (Chr CHR ''c'')
               (Seq (NLook (Seq (Cls False) Eps)) Eps)))))
   \<and> \<not> has_token ''a.c'' ''abc''
   \<and> \<not> (\<exists>before after. ''abc'' = before @ ''a.c'' @ after)
   \<and> hasClass one_item ''a.c'' (class_host ''abc'' []) = Inr (VArray [VStr ''abc''])
   \<and> (\<exists>h'. removeClass one_item ''a.c'' (class_host ''abc'' []) = Inr (RObj one_item, h')
         \<and> className (elements (class_host ''abc'' []) 0) = ''abc''
         \<and> className (elements h' 0) = [])"
proof -
  have props: "get_prop one_item (Named ''length'') = VNum 1" "get_prop one_item (Index 0) = VElem 0"
    by (simp_all add: one_item_def get_prop_def)
  have re: "RegExp (class_pattern ''a.c'')
      = Inr (Seq (Alt (Seq Bol Eps) (Seq (Cls True) Eps))
              (Seq (Chr CHR ''a'') (Seq Dot (Seq (Chr CHR ''c'')
                (Seq (NLook (Seq (Cls False) Eps)) Eps)))))"
    by (simp add: eval_regex)
  have token: "\<not> has_token ''a.c'' ''abc''"
    by code_simp
  have nowhere: "\<not> (\<exists>before after. ''abc'' = before @ ''a.c'' @ after)"
  proof
    assume "\<exists>before after. ''abc'' = before @ ''a.c'' @ after"
    then obtain before after where eq: "''abc'' = before @ ''a.c'' @ after" by blast
    then have "length ''abc'' = length (before @ ''a.c'' @ after)" by (rule arg_cong)
    then have "before = []" and "after = []" by simp_all
    with eq show False by simp
  qed
  have has: "hasClass one_item ''a.c'' (class_host ''abc'' []) = Inr (VArray [VStr ''abc''])"
    by (subst hasClass_parsed [OF re props(1) _ props(2)]) (simp_all add: eval_host eval_regex)
  have "removeClass one_item ''a.c'' (class_host ''abc'' [])
      = Inr (RObj one_item, update_classes (string_replace (Seq (Alt (Seq Bol Eps) (Seq (Cls True) Eps))
              (Seq (Chr CHR ''a'') (Seq Dot (Seq (Chr CHR ''c'')
                (Seq (NLook (Seq (Cls False) Eps)) Eps)))))) [0] (class_host ''abc'' []))"
    using holds_one_item re by (rule removeClass_parsed)
  then have "\<exists>h'. removeClass one_item ''a.c'' (class_host ''abc'' []) = Inr (RObj one_item, h')
         \<and> className (elements (class_host ''abc'' []) 0) = ''abc''
         \<and> className (elements h' 0) = []"
    by (simp add: update_classes_def eval_host eval_regex)
  with re token nowhere has show ?thesis by blast
qed

end
